theory Spec2Isabelle
  imports Complex_Main "HOL-Library.AList"
begin

section \<open>Loss helpers of \<^verbatim>\<open>models/loss_utils.py\<close>\<close>

text \<open>
  The module has three public functions, \<^verbatim>\<open>loss_nl\<close>, \<^verbatim>\<open>loss_mse\<close> and
  \<^verbatim>\<open>loss_xent\<close>, and one private helper, \<^verbatim>\<open>_loss_helper\<close>. Every one of them is a
  short sequence of calls into TensorFlow 1.x (\<^verbatim>\<open>tf.where\<close>, \<^verbatim>\<open>tf.losses.*\<close>,
  \<^verbatim>\<open>tf.summary.*\<close>). The first part of this theory models those library calls, the
  second part the four functions of the module, line by line.

  Conventions of the model:
  \<^item> a \<^verbatim>\<open>float32\<close> scalar is a \<^typ>\<open>real\<close>: rounding is not modelled, so every
    equation below is an equation of exact arithmetic;
  \<^item> a tensor is identified with the value it evaluates to: a rank-1 tensor is a list,
    a rank-2 tensor the list of its rows;
  \<^item> \<^verbatim>\<open>int32\<close> years and \<^verbatim>\<open>int64\<close> labels are \<^typ>\<open>int\<close>: the module only compares
    them with constants or uses them as indices, and \<^typ>\<open>int\<close> contains every value
    of both types;
  \<^item> the graph collections and the table of names the library reads and writes are an
    explicit state, passed in and returned;
  \<^item> an exception raised by the library is the \<open>Inl\<close> branch of the result.
\<close>

subsection \<open>Data\<close>

datatype error =
    ShapeMismatch      \<comment> \<open>incompatible tensor shapes\<close>
  | IndexOutOfRange    \<comment> \<open>a slice index beyond the second axis\<close>
  | LabelOutOfRange    \<comment> \<open>a class label outside \<open>[0, num_classes)\<close>\<close>
  | EmptyAddN          \<comment> \<open>\<^verbatim>\<open>tf.add_n\<close> of an empty list\<close>

datatype tensor = Vec "real list" | Mat "real list list"

datatype summary = Scalar string real | Merged "summary list"

text \<open>
  The state of the default graph that the module touches: the collections
  \<^verbatim>\<open>tf.GraphKeys.LOSSES\<close>, \<^verbatim>\<open>tf.GraphKeys.REGULARIZATION_LOSSES\<close> and
  \<^verbatim>\<open>tf.GraphKeys.SUMMARIES\<close>, each in insertion order, the table of the names in use
  (\<^verbatim>\<open>Graph._names_in_use\<close>, from lower-cased name to a counter) and the current name
  scope (\<^verbatim>\<open>Graph._name_stack\<close>, empty at the root). The last two decide the tag a
  summary is emitted under.
\<close>

record graph =
  LOSSES :: "real list"
  REGULARIZATION_LOSSES :: "real list"
  SUMMARIES :: "summary list"
  names_in_use :: "(string \<times> nat) list"
  name_stack :: string

datatype Reduction =
    Reduction_SUM
  | Reduction_MEAN
  | Reduction_SUM_OVER_BATCH_SIZE
  | Reduction_SUM_BY_NONZERO_WEIGHTS

subsection \<open>The TensorFlow calls\<close>

text \<open>
  The definitions of this subsection follow the documented behaviour of the
  TensorFlow 1.x functions of the same names; the module's own code starts in the next
  subsection.
\<close>

fun elems :: "tensor \<Rightarrow> real list" where
  "elems (Vec xs) = xs"
| "elems (Mat rs) = concat rs"

fun same_shape :: "tensor \<Rightarrow> tensor \<Rightarrow> bool" where
  "same_shape (Vec xs) (Vec ys) = (length xs = length ys)"
| "same_shape (Mat rs) (Mat ss) = (map length rs = map length ss)"
| "same_shape _ _ = False"

text \<open>\<^verbatim>\<open>t[:, j]\<close> on a rank-2 tensor: column \<open>j\<close>, an error when the rows are shorter.\<close>

definition column :: "nat \<Rightarrow> real list list \<Rightarrow> error + real list" where
  "column j rs =
     (if list_all (\<lambda>r. j < length r) rs then Inr (map (\<lambda>r. r ! j) rs)
      else Inl IndexOutOfRange)"

text \<open>\<^verbatim>\<open>tf.where(condition, x, y)\<close> on three rank-1 tensors of one shape.\<close>

definition tf_where :: "bool list \<Rightarrow> real list \<Rightarrow> real list \<Rightarrow> error + real list" where
  "tf_where c xs ys =
     (if length c = length xs \<and> length xs = length ys
      then Inr (map (\<lambda>(b, x, y). if b then x else y) (zip c (zip xs ys)))
      else Inl ShapeMismatch)"

text \<open>\<^verbatim>\<open>tf.add_n(inputs)\<close>: the sum of a non-empty list of tensors.\<close>

definition add_n :: "real list \<Rightarrow> error + real" where
  "add_n xs = (if xs = [] then Inl EmptyAddN else Inr (sum_list xs))"

text \<open>
  \<^verbatim>\<open>tf.losses.get_regularization_loss()\<close>: the sum of the collection
  \<^verbatim>\<open>REGULARIZATION_LOSSES\<close>, the constant \<open>0.0\<close> when it is empty.
\<close>

definition get_regularization_loss :: "graph \<Rightarrow> real" where
  "get_regularization_loss g =
     (if REGULARIZATION_LOSSES g = [] then 0 else sum_list (REGULARIZATION_LOSSES g))"

text \<open>
  \<^verbatim>\<open>tf.losses.get_total_loss(add_regularization_losses)\<close>: \<^verbatim>\<open>add_n\<close> of every loss in
  the collection \<^verbatim>\<open>LOSSES\<close>, followed by the regularization losses when the flag is
  set. It takes no loss as an argument: it reads what has been registered in the graph,
  by this call of the module and by any earlier one.
\<close>

definition get_total_loss :: "bool \<Rightarrow> graph \<Rightarrow> error + real" where
  "get_total_loss add_regularization_losses g =
     add_n (LOSSES g @ (if add_regularization_losses then REGULARIZATION_LOSSES g else []))"

text \<open>
  \<^verbatim>\<open>tf.losses.compute_weighted_loss(losses, weights, loss_collection, reduction)\<close>
  with a scalar weight, which is broadcast to every element of \<open>losses\<close>. The reduced
  loss is appended to the collection \<^verbatim>\<open>LOSSES\<close> (\<^verbatim>\<open>tf.losses.add_loss\<close>) and returned.
\<close>

definition broadcast_weights :: "real \<Rightarrow> real list \<Rightarrow> real list" where
  "broadcast_weights w losses = replicate (length losses) w"

definition num_present :: "real list \<Rightarrow> real \<Rightarrow> real" where
  "num_present losses w =
     sum_list (map (\<lambda>w. if w = 0 then 0 else 1) (broadcast_weights w losses))"

definition safe_mean :: "real \<Rightarrow> real \<Rightarrow> real" where
  "safe_mean s n = (if n = 0 then 0 else s / n)"

definition compute_weighted_loss ::
    "real list \<Rightarrow> real \<Rightarrow> Reduction \<Rightarrow> graph \<Rightarrow> real \<times> graph" where
  "compute_weighted_loss losses w reduction g =
     (let weighted_losses = map (\<lambda>(l, w). l * w) (zip losses (broadcast_weights w losses));
          s = sum_list weighted_losses;
          loss = (case reduction of
                    Reduction_SUM \<Rightarrow> s
                  | Reduction_MEAN \<Rightarrow> safe_mean s (sum_list (broadcast_weights w losses))
                  | Reduction_SUM_OVER_BATCH_SIZE \<Rightarrow> safe_mean s (real (length losses))
                  | Reduction_SUM_BY_NONZERO_WEIGHTS \<Rightarrow> safe_mean s (num_present losses w))
      in (loss, g\<lparr>LOSSES := LOSSES g @ [loss]\<rparr>))"

text \<open>
  \<^verbatim>\<open>tf.losses.mean_squared_error(labels, predictions)\<close> with its defaults
  \<^verbatim>\<open>weights=1.0\<close>, \<^verbatim>\<open>loss_collection=LOSSES\<close>,
  \<^verbatim>\<open>reduction=SUM_BY_NONZERO_WEIGHTS\<close>.
\<close>

definition squared_difference :: "real \<Rightarrow> real \<Rightarrow> real" where
  "squared_difference x y = (x - y) * (x - y)"

definition mean_squared_error :: "tensor \<Rightarrow> tensor \<Rightarrow> graph \<Rightarrow> error + real \<times> graph" where
  "mean_squared_error labels predictions g =
     (if \<not> same_shape predictions labels then Inl ShapeMismatch
      else Inr (compute_weighted_loss
                  (map (\<lambda>(p, l). squared_difference p l) (zip (elems predictions) (elems labels)))
                  1 Reduction_SUM_BY_NONZERO_WEIGHTS g))"

text \<open>
  \<^verbatim>\<open>tf.nn.sparse_softmax_cross_entropy_with_logits(labels, logits)\<close>: one loss per
  example. For one example the kernel shifts the logits by their maximum and returns
  \<open>log (\<Sum> exp shifted) - shifted[label]\<close>; a label outside \<open>[0, num_classes)\<close> is an
  error. (The maximum of an empty row is never used: every label is out of range
  there.) The number of labels must be the number of rows; the losses of the rows are
  collected in order, the first error wins.
\<close>

fun reduce_max :: "real list \<Rightarrow> real" where
  "reduce_max [] = 0"
| "reduce_max (x # xs) = fold max xs x"

definition sparse_xent_row :: "int \<Rightarrow> real list \<Rightarrow> error + real" where
  "sparse_xent_row label row =
     (if label < 0 \<or> int (length row) \<le> label then Inl LabelOutOfRange
      else (let shifted = map (\<lambda>z. z - reduce_max row) row
            in Inr (ln (sum_list (map exp shifted)) - shifted ! nat label)))"

fun collect :: "(error + 'a) list \<Rightarrow> error + 'a list" where
  "collect [] = Inr []"
| "collect (Inl e # rs) = Inl e"
| "collect (Inr x # rs) = (case collect rs of Inl e \<Rightarrow> Inl e | Inr xs \<Rightarrow> Inr (x # xs))"

definition sparse_softmax_cross_entropy_with_logits ::
    "int list \<Rightarrow> real list list \<Rightarrow> error + real list" where
  "sparse_softmax_cross_entropy_with_logits labels logits =
     (if length labels \<noteq> length logits then Inl ShapeMismatch
      else collect (map (\<lambda>(l, r). sparse_xent_row l r) (zip labels logits)))"

text \<open>
  \<^verbatim>\<open>tf.losses.sparse_softmax_cross_entropy(labels, logits, reduction)\<close> with its
  defaults \<^verbatim>\<open>weights=1.0\<close>, \<^verbatim>\<open>loss_collection=LOSSES\<close>.
\<close>

definition sparse_softmax_cross_entropy ::
    "int list \<Rightarrow> real list list \<Rightarrow> Reduction \<Rightarrow> graph \<Rightarrow> error + real \<times> graph" where
  "sparse_softmax_cross_entropy labels logits reduction g =
     (case sparse_softmax_cross_entropy_with_logits labels logits of
        Inl e \<Rightarrow> Inl e
      | Inr losses \<Rightarrow> Inr (compute_weighted_loss losses 1 reduction g))"

text \<open>
  \<^verbatim>\<open>Graph.unique_name(name)\<close>, through which every name scope is opened. The name
  is prefixed with the current scope; its lower-cased form is the key into the table of
  names in use. A key seen for the first time is entered with the counter \<open>1\<close> and the
  name is returned as it is. A key seen before has its counter incremented, and the
  name gets the suffix \<open>_i\<close> for the first \<open>i\<close>, counting from the old counter, whose
  key is not in the table yet:
  \<^verbatim>\<open>
    if self._name_stack:
      name = self._name_stack + "/" + name
    name_key = name.lower()
    i = self._names_in_use.get(name_key, 0)
    self._names_in_use[name_key] = i + 1
    if i > 0:
      base_name_key = name_key
      while name_key in self._names_in_use:
        name_key = "%s_%d" % (base_name_key, i)
        i += 1
      self._names_in_use[name_key] = 1
      name = "%s_%d" % (name, i - 1)
    return name
  \<close>
  Names are ASCII, so \<^verbatim>\<open>lower\<close> changes the capital letters only; \<open>dec\<close> is the
  decimal numeral that \<^verbatim>\<open>%d\<close> prints. The loop is \<open>probe\<close>: it ends because the
  table is finite and the numerals of different numbers differ (\<open>undec\<close> reads a
  numeral back).
\<close>

definition lower_char :: "char \<Rightarrow> char" where
  "lower_char c =
     (case map_of (zip ''ABCDEFGHIJKLMNOPQRSTUVWXYZ'' ''abcdefghijklmnopqrstuvwxyz'') c of
        None \<Rightarrow> c | Some d \<Rightarrow> d)"

definition lower :: "string \<Rightarrow> string" where
  "lower s = map lower_char s"

definition digit :: "nat \<Rightarrow> char" where
  "digit d = ''0123456789'' ! d"

fun dec :: "nat \<Rightarrow> string" where
  "dec n = (if n < 10 then [digit n] else dec (n div 10) @ [digit (n mod 10)])"

declare dec.simps [simp del]

definition digit_value :: "char \<Rightarrow> nat" where
  "digit_value c = of_char c - 48"

definition undec :: "string \<Rightarrow> nat" where
  "undec s = foldl (\<lambda>a c. 10 * a + digit_value c) 0 s"

function probe :: "string \<Rightarrow> string \<Rightarrow> nat \<Rightarrow> (string \<times> nat) list \<Rightarrow> string \<times> nat" where
  "probe base_name_key name_key i m =
     (if map_of m name_key \<noteq> None
      then probe base_name_key (base_name_key @ ''_'' @ dec i) (Suc i) m
      else (name_key, i))"
  by pat_completeness auto
termination
proof (relation "measure (\<lambda>(base_name_key, name_key, i, m).
    2 * card {k. i \<le> k \<and> map_of m (base_name_key @ ''_'' @ dec k) \<noteq> None} +
    (if map_of m name_key \<noteq> None then 1 else 0))")
  show "wf (measure (\<lambda>(base_name_key, name_key, i, m).
    2 * card {k. i \<le> k \<and> map_of m (base_name_key @ ''_'' @ dec k) \<noteq> None} +
    (if map_of m name_key \<noteq> None then 1 else 0)))"
    by simp
next
  fix base name_key :: string and i :: nat and m :: "(string \<times> nat) list"
  assume "map_of m name_key \<noteq> None"
  let ?used = "\<lambda>k. map_of m (base @ ''_'' @ dec k) \<noteq> None"
  have digit_value_digit: "digit_value (digit d) = d" if "d < 10" for d
  proof -
    from that have "d = 0 \<or> d = 1 \<or> d = 2 \<or> d = 3 \<or> d = 4 \<or> d = 5 \<or> d = 6
        \<or> d = 7 \<or> d = 8 \<or> d = 9"
      by arith
    then show ?thesis
      by (elim disjE) (simp_all add: digit_def digit_value_def)
  qed
  have undec_dec: "undec (dec n) = n" for n
  proof (induction n rule: dec.induct)
    case (1 n)
    show ?case
    proof (cases "n < 10")
      case True
      then show ?thesis
        by (subst dec.simps) (simp add: undec_def digit_value_digit)
    next
      case False
      have "undec (dec (n div 10) @ [digit (n mod 10)]) =
          10 * undec (dec (n div 10)) + digit_value (digit (n mod 10))"
        by (simp add: undec_def)
      also have "\<dots> = 10 * (n div 10) + n mod 10"
        using "1.IH" [OF False] by (simp add: digit_value_digit)
      also have "\<dots> = n" by simp
      finally show ?thesis
        using False by (subst dec.simps) simp
    qed
  qed
  have inj: "inj (\<lambda>k. base @ ''_'' @ dec k)"
  proof (rule injI)
    fix j k assume "base @ ''_'' @ dec j = base @ ''_'' @ dec k"
    then have "undec (dec j) = undec (dec k)" by simp
    then show "j = k" by (simp add: undec_dec)
  qed
  have fin: "finite {k. Suc i \<le> k \<and> ?used k}"
  proof -
    have "finite ((\<lambda>k. base @ ''_'' @ dec k) -` dom (map_of m))"
      by (intro finite_vimageI finite_dom_map_of inj)
    moreover have "{k. Suc i \<le> k \<and> ?used k} \<subseteq> (\<lambda>k. base @ ''_'' @ dec k) -` dom (map_of m)"
      by auto
    ultimately show ?thesis by (rule rev_finite_subset)
  qed
  have step: "2 * card {k. Suc i \<le> k \<and> ?used k} + (if ?used i then 1 else 0)
      < 2 * card {k. i \<le> k \<and> ?used k} + 1"
  proof (cases "?used i")
    case True
    have "{k. i \<le> k \<and> ?used k} = insert i {k. Suc i \<le> k \<and> ?used k}"
      using True by (auto simp: Suc_le_eq le_less)
    moreover have "i \<notin> {k. Suc i \<le> k \<and> ?used k}"
      by simp
    then have "card (insert i {k. Suc i \<le> k \<and> ?used k}) = Suc (card {k. Suc i \<le> k \<and> ?used k})"
      by (rule card_insert_disjoint [OF fin])
    ultimately have "card {k. i \<le> k \<and> ?used k} = Suc (card {k. Suc i \<le> k \<and> ?used k})"
      by (simp only:)
    with True show ?thesis by simp
  next
    case False
    have "{k. i \<le> k \<and> ?used k} = {k. Suc i \<le> k \<and> ?used k}"
      using False by (auto simp: Suc_le_eq le_less)
    with False show ?thesis by simp
  qed
  from \<open>map_of m name_key \<noteq> None\<close> step
  show "((base, base @ ''_'' @ dec i, Suc i, m), (base, name_key, i, m))
      \<in> measure (\<lambda>(base_name_key, name_key, i, m).
    2 * card {k. i \<le> k \<and> map_of m (base_name_key @ ''_'' @ dec k) \<noteq> None} +
    (if map_of m name_key \<noteq> None then 1 else 0))"
    by simp
qed

declare probe.simps [simp del]

definition unique_name :: "string \<Rightarrow> graph \<Rightarrow> string \<times> graph" where
  "unique_name name g =
     (let name = (if name_stack g = [] then name else name_stack g @ ''/'' @ name);
          name_key = lower name;
          i = (case map_of (names_in_use g) name_key of None \<Rightarrow> 0 | Some i \<Rightarrow> i);
          m = AList.update name_key (i + 1) (names_in_use g)
      in if 0 < i
         then (let (name_key', i') = probe name_key name_key i m;
                   m' = AList.update name_key' 1 m
               in (name @ ''_'' @ dec (i' - 1), g\<lparr>names_in_use := m'\<rparr>))
         else (name, g\<lparr>names_in_use := m\<rparr>))"

text \<open>
  \<^verbatim>\<open>tf.summary.scalar(name, tensor)\<close> opens the name scope \<open>name\<close>
  (\<^verbatim>\<open>summary_scope\<close>, \<^verbatim>\<open>Graph.name_scope\<close>, \<^verbatim>\<open>Graph.unique_name\<close>), creates one scalar
  record whose tag is the name of that scope, adds it to the collection
  \<^verbatim>\<open>SUMMARIES\<close> and leaves the scope. The tag is the name passed in only on its first
  use at the root of the graph: inside a name scope it carries the prefix of the scope,
  and from the second use on a number (\<open>loss_total_1\<close>). \<^verbatim>\<open>tf.summary.merge(inputs)\<close>
  bundles records and adds nothing to a collection.

  The model covers the names the module passes: letters, digits and underscores, which
  \<^verbatim>\<open>clean_tag\<close> leaves as they are and which are valid scope names. The operations
  created inside a scope, and those of the other calls of the module (\<open>Less\<close>,
  \<open>strided_slice\<close>, \<open>Select\<close>, \<open>mean_squared_error\<close>, \<open>total_loss\<close> and the like),
  enter names into the table as well; none of them is one of the names the public
  functions pass to \<^verbatim>\<open>tf.summary.scalar\<close> or one of their numbered forms, and they
  are left out.
\<close>

definition summary_scalar :: "string \<Rightarrow> real \<Rightarrow> graph \<Rightarrow> summary \<times> graph" where
  "summary_scalar name v g =
     (let (tag, g') = unique_name name g
      in (Scalar tag v, g'\<lparr>SUMMARIES := SUMMARIES g' @ [Scalar tag v]\<rparr>))"

definition summary_merge :: "summary list \<Rightarrow> summary" where
  "summary_merge inputs = Merged inputs"

subsection \<open>The module\<close>

text \<open>
  \<^verbatim>\<open>_loss_helper(loss, loss_name, add_summaries)\<close>, here \<open>loss_helper\<close>:
  \<^verbatim>\<open>
    loss_total = tf.losses.get_total_loss(add_regularization_losses=True)
    loss_reg = tf.losses.get_regularization_loss()
    loss_summaries = None
    if add_summaries:
        loss_summaries = tf.summary.merge([
            tf.summary.scalar('loss_total', loss_total),
            tf.summary.scalar('loss_regularization_only', loss_reg),
            tf.summary.scalar(loss_name, loss)
        ])
    return loss_total, loss_reg, loss_summaries
  \<close>
  The total is what \<^verbatim>\<open>get_total_loss\<close> reads from the graph; the argument \<open>loss\<close> is
  used for the third summary only. The three public functions always pass a name.
\<close>

definition loss_helper ::
    "real \<Rightarrow> string \<Rightarrow> bool \<Rightarrow> graph \<Rightarrow> error + (real \<times> real \<times> summary option) \<times> graph" where
  "loss_helper loss loss_name add_summaries g =
     (case get_total_loss True g of
        Inl e \<Rightarrow> Inl e
      | Inr loss_total \<Rightarrow>
          (let loss_reg = get_regularization_loss g
           in if add_summaries
              then (let (s1, g1) = summary_scalar ''loss_total'' loss_total g;
                        (s2, g2) = summary_scalar ''loss_regularization_only'' loss_reg g1;
                        (s3, g3) = summary_scalar loss_name loss g2
                    in Inr ((loss_total, loss_reg, Some (summary_merge [s1, s2, s3])), g3))
              else Inr ((loss_total, loss_reg, None), g)))"

text \<open>
  \<^verbatim>\<open>loss_nl(labels, preds, years, add_summaries)\<close>, with \<open>labels\<close> of shape
  \<open>[batch_size]\<close>, \<open>preds\<close> of shape \<open>[batch_size, 2]\<close> and \<open>years\<close> of shape
  \<open>[batch_size]\<close>:
  \<^verbatim>\<open>
    preds = tf.where(years < 2012, preds[:, 0], preds[:, 1])
    loss_mse = tf.losses.mean_squared_error(labels, preds)
    loss_total, loss_reg, loss_summaries = _loss_helper(
        loss_mse, loss_name='loss_mse', add_summaries=add_summaries)
    return loss_total, loss_mse, loss_reg, loss_summaries
  \<close>
\<close>

definition loss_nl ::
    "real list \<Rightarrow> real list list \<Rightarrow> int list \<Rightarrow> bool \<Rightarrow> graph
      \<Rightarrow> error + (real \<times> real \<times> real \<times> summary option) \<times> graph" where
  "loss_nl labels preds years add_summaries g =
     (case column 0 preds of Inl e \<Rightarrow> Inl e | Inr dmsp \<Rightarrow>
      case column 1 preds of Inl e \<Rightarrow> Inl e | Inr viirs \<Rightarrow>
      case tf_where (map (\<lambda>y. y < 2012) years) dmsp viirs of Inl e \<Rightarrow> Inl e | Inr preds' \<Rightarrow>
      case mean_squared_error (Vec labels) (Vec preds') g of Inl e \<Rightarrow> Inl e | Inr (loss_mse, g1) \<Rightarrow>
      case loss_helper loss_mse ''loss_mse'' add_summaries g1 of Inl e \<Rightarrow> Inl e
      | Inr ((loss_total, loss_reg, loss_summaries), g2) \<Rightarrow>
          Inr ((loss_total, loss_mse, loss_reg, loss_summaries), g2))"

text \<open>
  \<^verbatim>\<open>loss_mse(labels, preds, add_summaries)\<close>, with \<open>labels\<close> and \<open>preds\<close> of shape
  \<open>[batch_size]\<close> or \<open>[batch_size, labels_dim]\<close>:
  \<^verbatim>\<open>
    loss_mse = tf.losses.mean_squared_error(labels, preds)
    loss_total, loss_reg, loss_summaries = _loss_helper(
        loss_mse, loss_name='loss_mse', add_summaries=add_summaries)
    return loss_total, loss_mse, loss_reg, loss_summaries
  \<close>
\<close>

definition loss_mse ::
    "tensor \<Rightarrow> tensor \<Rightarrow> bool \<Rightarrow> graph
      \<Rightarrow> error + (real \<times> real \<times> real \<times> summary option) \<times> graph" where
  "loss_mse labels preds add_summaries g =
     (case mean_squared_error labels preds g of Inl e \<Rightarrow> Inl e | Inr (loss_mse, g1) \<Rightarrow>
      case loss_helper loss_mse ''loss_mse'' add_summaries g1 of Inl e \<Rightarrow> Inl e
      | Inr ((loss_total, loss_reg, loss_summaries), g2) \<Rightarrow>
          Inr ((loss_total, loss_mse, loss_reg, loss_summaries), g2))"

text \<open>
  \<^verbatim>\<open>loss_xent(labels, logits, add_summaries)\<close>, with \<open>labels\<close> of shape
  \<open>[batch_size]\<close> and \<open>logits\<close> of shape \<open>[batch_size, num_classes]\<close>:
  \<^verbatim>\<open>
    loss_xent = tf.losses.sparse_softmax_cross_entropy(
        labels=labels, logits=logits,
        reduction=tf.losses.Reduction.SUM_BY_NONZERO_WEIGHTS)
    loss_total, loss_reg, loss_summaries = _loss_helper(
        loss_xent, loss_name='loss_cross_entropy', add_summaries=add_summaries)
    return loss_total, loss_xent, loss_reg, loss_summaries
  \<close>
\<close>

definition loss_xent ::
    "int list \<Rightarrow> real list list \<Rightarrow> bool \<Rightarrow> graph
      \<Rightarrow> error + (real \<times> real \<times> real \<times> summary option) \<times> graph" where
  "loss_xent labels logits add_summaries g =
     (case sparse_softmax_cross_entropy labels logits Reduction_SUM_BY_NONZERO_WEIGHTS g of
        Inl e \<Rightarrow> Inl e | Inr (loss_xent, g1) \<Rightarrow>
      case loss_helper loss_xent ''loss_cross_entropy'' add_summaries g1 of Inl e \<Rightarrow> Inl e
      | Inr ((loss_total, loss_reg, loss_summaries), g2) \<Rightarrow>
          Inr ((loss_total, loss_xent, loss_reg, loss_summaries), g2))"

subsection \<open>Quantities used in the statements\<close>

text \<open>The graph before anything has been registered in it.\<close>

definition fresh_graph :: graph where
  "fresh_graph =
     \<lparr>LOSSES = [], REGULARIZATION_LOSSES = [], SUMMARIES = [], names_in_use = [], name_stack = []\<rparr>"

text \<open>Whether a name, under the current name scope, is in the table of names in use.\<close>

definition name_in_use :: "string \<Rightarrow> graph \<Rightarrow> bool" where
  "name_in_use name g =
     (map_of (names_in_use g)
        (lower (if name_stack g = [] then name else name_stack g @ ''/'' @ name)) \<noteq> None)"

text \<open>
  The value \<^verbatim>\<open>tf.losses.mean_squared_error\<close> returns on two tensors of one shape: the sum
  of the squared differences over the number of elements, \<open>0\<close> on an empty batch.
\<close>

definition mse_value :: "tensor \<Rightarrow> tensor \<Rightarrow> real" where
  "mse_value labels preds =
     (let d = map (\<lambda>(p, l). squared_difference p l) (zip (elems preds) (elems labels))
      in safe_mean (sum_list d) (real (length d)))"

text \<open>The numeric part of a result: total, task and regularization loss.\<close>

definition numeric_results ::
    "error + (real \<times> real \<times> real \<times> summary option) \<times> graph \<Rightarrow> error + real \<times> real \<times> real" where
  "numeric_results res =
     (case res of Inl e \<Rightarrow> Inl e
      | Inr ((loss_total, loss, loss_reg, loss_summaries), g) \<Rightarrow> Inr (loss_total, loss, loss_reg))"

text \<open>A bundle of exactly three scalar records.\<close>

fun three_scalars :: "summary \<Rightarrow> bool" where
  "three_scalars (Merged [Scalar n1 v1, Scalar n2 v2, Scalar n3 v3]) = True"
| "three_scalars _ = False"

text \<open>
  The cross-entropy in the words of the specification: a softmax over the logits of an
  example, the negative logarithm of the probability of its label, and the mean over the
  examples whose weight is not zero.
\<close>

definition softmax :: "real list \<Rightarrow> real list" where
  "softmax zs = map (\<lambda>z. exp z / sum_list (map exp zs)) zs"

definition cross_entropy :: "real list \<Rightarrow> nat \<Rightarrow> real" where
  "cross_entropy p k = - ln (p ! k)"

definition mean_by_nonzero_weights :: "real list \<Rightarrow> real list \<Rightarrow> real" where
  "mean_by_nonzero_weights xs ws =
     (let k = length (filter (\<lambda>w. w \<noteq> 0) ws)
      in if k = 0 then 0 else sum_list (map (\<lambda>(x, w). x * w) (zip xs ws)) / real k)"

lemmas eval_defs = loss_nl_def loss_mse_def loss_xent_def loss_helper_def
  column_def tf_where_def add_n_def get_regularization_loss_def get_total_loss_def
  broadcast_weights_def num_present_def safe_mean_def compute_weighted_loss_def
  squared_difference_def mean_squared_error_def sparse_softmax_cross_entropy_def
  sparse_softmax_cross_entropy_with_logits_def sparse_xent_row_def summary_scalar_def
  summary_merge_def fresh_graph_def unique_name_def lower_def lower_char_def Let_def

section \<open>What the library calls return\<close>

lemma get_regularization_loss_sum:
  "get_regularization_loss g = sum_list (REGULARIZATION_LOSSES g)"
  by (simp add: get_regularization_loss_def)

lemma get_total_loss_sum:
  "LOSSES g \<noteq> [] \<Longrightarrow>
   get_total_loss True g = Inr (sum_list (LOSSES g) + sum_list (REGULARIZATION_LOSSES g))"
  by (simp add: get_total_loss_def add_n_def)

lemma unique_name_graph: "\<exists>tag m. unique_name name g = (tag, g\<lparr>names_in_use := m\<rparr>)"
proof -
  define name' where "name' = (if name_stack g = [] then name else name_stack g @ ''/'' @ name)"
  define i where "i = (case map_of (names_in_use g) (lower name') of None \<Rightarrow> 0 | Some i \<Rightarrow> i)"
  define m where "m = AList.update (lower name') (i + 1) (names_in_use g)"
  obtain k j where p: "probe (lower name') (lower name') i m = (k, j)"
    by (cases "probe (lower name') (lower name') i m")
  have "unique_name name g =
      (if 0 < i then (name' @ ''_'' @ dec (j - 1), g\<lparr>names_in_use := AList.update k 1 m\<rparr>)
       else (name', g\<lparr>names_in_use := m\<rparr>))"
    using p by (simp add: unique_name_def Let_def name'_def i_def m_def)
  then show ?thesis by (cases "0 < i") auto
qed

lemma summary_scalar_graph:
  "\<exists>tag m. summary_scalar name v g =
     (Scalar tag v, g\<lparr>names_in_use := m, SUMMARIES := SUMMARIES g @ [Scalar tag v]\<rparr>)"
proof -
  obtain tag m where "unique_name name g = (tag, g\<lparr>names_in_use := m\<rparr>)"
    using unique_name_graph by blast
  then have "summary_scalar name v g =
      (Scalar tag v, g\<lparr>names_in_use := m, SUMMARIES := SUMMARIES g @ [Scalar tag v]\<rparr>)"
    by (simp add: summary_scalar_def)
  then show ?thesis by blast
qed

text \<open>On its first use at the root of the graph a name is the tag.\<close>

lemma summary_scalar_first_use:
  assumes "name_stack g = []" and "map_of (names_in_use g) (lower name) = None"
  shows "summary_scalar name v g =
     (Scalar name v,
      g\<lparr>names_in_use := AList.update (lower name) 1 (names_in_use g),
        SUMMARIES := SUMMARIES g @ [Scalar name v]\<rparr>)"
  using assms by (simp add: summary_scalar_def unique_name_def Let_def)

lemma loss_helper_False:
  assumes "LOSSES g \<noteq> []"
  shows "loss_helper loss name False g =
     Inr ((sum_list (LOSSES g) + sum_list (REGULARIZATION_LOSSES g),
           sum_list (REGULARIZATION_LOSSES g), None), g)"
  using assms
  by (simp add: loss_helper_def get_total_loss_sum get_regularization_loss_sum Let_def)

lemma loss_helper_True:
  assumes "LOSSES g \<noteq> []"
  shows "\<exists>t1 t2 t3 g'. loss_helper loss name True g =
     Inr ((sum_list (LOSSES g) + sum_list (REGULARIZATION_LOSSES g),
           sum_list (REGULARIZATION_LOSSES g),
           Some (Merged
                  [Scalar t1 (sum_list (LOSSES g) + sum_list (REGULARIZATION_LOSSES g)),
                   Scalar t2 (sum_list (REGULARIZATION_LOSSES g)),
                   Scalar t3 loss])), g')"
proof -
  define T where "T = sum_list (LOSSES g) + sum_list (REGULARIZATION_LOSSES g)"
  define R where "R = sum_list (REGULARIZATION_LOSSES g)"
  obtain t1 g1 where s1: "summary_scalar ''loss_total'' T g = (Scalar t1 T, g1)"
    using summary_scalar_graph by blast
  obtain t2 g2 where s2: "summary_scalar ''loss_regularization_only'' R g1 = (Scalar t2 R, g2)"
    using summary_scalar_graph by blast
  obtain t3 g3 where s3: "summary_scalar name loss g2 = (Scalar t3 loss, g3)"
    using summary_scalar_graph by blast
  have "loss_helper loss name True g =
      Inr ((T, R, Some (Merged [Scalar t1 T, Scalar t2 R, Scalar t3 loss])), g3)"
    using assms s1 s2 s3
    by (simp add: loss_helper_def get_total_loss_sum get_regularization_loss_sum
        summary_merge_def T_def R_def Let_def)
  then show ?thesis unfolding T_def R_def by blast
qed

lemma loss_helper_eq:
  assumes "LOSSES g \<noteq> []"
  shows "\<exists>s g'. loss_helper loss name b g =
       Inr ((sum_list (LOSSES g) + sum_list (REGULARIZATION_LOSSES g),
             sum_list (REGULARIZATION_LOSSES g), s), g') \<and>
     (if b then \<exists>t1 t2 t3. s = Some (Merged
                  [Scalar t1 (sum_list (LOSSES g) + sum_list (REGULARIZATION_LOSSES g)),
                   Scalar t2 (sum_list (REGULARIZATION_LOSSES g)),
                   Scalar t3 loss])
      else s = None \<and> g' = g)"
proof (cases b)
  case True
  with loss_helper_True [OF assms, of loss name] show ?thesis by auto
next
  case False
  with loss_helper_False [OF assms, of loss name] show ?thesis by simp
qed

text \<open>
  With the three names unused at the root of the graph, the records carry the names
  the helper passes.
\<close>

lemma loss_helper_first_use:
  assumes "LOSSES g \<noteq> []" and "name_stack g = []"
    and "\<not> name_in_use ''loss_total'' g" and "\<not> name_in_use ''loss_regularization_only'' g"
    and "\<not> name_in_use name g"
    and "name = ''loss_mse'' \<or> name = ''loss_cross_entropy''"
  shows "\<exists>g'. loss_helper loss name True g =
     Inr ((sum_list (LOSSES g) + sum_list (REGULARIZATION_LOSSES g),
           sum_list (REGULARIZATION_LOSSES g),
           Some (Merged
                  [Scalar ''loss_total'' (sum_list (LOSSES g) + sum_list (REGULARIZATION_LOSSES g)),
                   Scalar ''loss_regularization_only'' (sum_list (REGULARIZATION_LOSSES g)),
                   Scalar name loss])), g')"
proof -
  define T where "T = sum_list (LOSSES g) + sum_list (REGULARIZATION_LOSSES g)"
  define R where "R = sum_list (REGULARIZATION_LOSSES g)"
  define g1 where "g1 = g\<lparr>names_in_use := AList.update (lower ''loss_total'') 1 (names_in_use g),
      SUMMARIES := SUMMARIES g @ [Scalar ''loss_total'' T]\<rparr>"
  define g2 where "g2 = g1\<lparr>names_in_use :=
        AList.update (lower ''loss_regularization_only'') 1 (names_in_use g1),
      SUMMARIES := SUMMARIES g1 @ [Scalar ''loss_regularization_only'' R]\<rparr>"
  have low: "lower ''loss_total'' = ''loss_total''"
    "lower ''loss_regularization_only'' = ''loss_regularization_only''"
    "lower ''loss_mse'' = ''loss_mse''" "lower ''loss_cross_entropy'' = ''loss_cross_entropy''"
    by (simp_all add: lower_def lower_char_def)
  have u1: "map_of (names_in_use g) (lower ''loss_total'') = None"
    using assms(2,3) by (simp add: name_in_use_def)
  have s1: "summary_scalar ''loss_total'' T g = (Scalar ''loss_total'' T, g1)"
    unfolding g1_def using assms(2) u1 by (rule summary_scalar_first_use)
  have st1: "name_stack g1 = []"
    using assms(2) by (simp add: g1_def)
  have u2: "map_of (names_in_use g1) (lower ''loss_regularization_only'') = None"
    using assms(2,4) by (simp add: name_in_use_def g1_def update_conv' low)
  have s2: "summary_scalar ''loss_regularization_only'' R g1 =
      (Scalar ''loss_regularization_only'' R, g2)"
    unfolding g2_def using st1 u2 by (rule summary_scalar_first_use)
  have st2: "name_stack g2 = []"
    using st1 by (simp add: g2_def)
  have u3: "map_of (names_in_use g2) (lower name) = None"
    using assms(2,5,6) by (auto simp: name_in_use_def g1_def g2_def update_conv' low)
  obtain g3 where s3: "summary_scalar name loss g2 = (Scalar name loss, g3)"
    using summary_scalar_first_use [OF st2 u3] by blast
  have "loss_helper loss name True g =
      Inr ((T, R, Some (Merged [Scalar ''loss_total'' T, Scalar ''loss_regularization_only'' R,
                                Scalar name loss])), g3)"
    using assms(1) s1 s2 s3
    by (simp add: loss_helper_def get_total_loss_sum get_regularization_loss_sum
        summary_merge_def T_def R_def Let_def)
  then show ?thesis unfolding T_def R_def by blast
qed

lemma weighted_by_one:
  "map (\<lambda>(l, w). l * w) (zip losses (broadcast_weights 1 losses)) = losses"
  by (induction losses) (simp_all add: broadcast_weights_def)

lemma num_present_one: "num_present losses 1 = real (length losses)"
  by (induction losses) (simp_all add: num_present_def broadcast_weights_def)

lemma compute_weighted_loss_default:
  "compute_weighted_loss losses 1 Reduction_SUM_BY_NONZERO_WEIGHTS g =
     (safe_mean (sum_list losses) (real (length losses)),
      g\<lparr>LOSSES := LOSSES g @ [safe_mean (sum_list losses) (real (length losses))]\<rparr>)"
  by (simp add: compute_weighted_loss_def weighted_by_one num_present_one Let_def)

lemma mean_squared_error_eq:
  "same_shape preds labels \<Longrightarrow>
   mean_squared_error labels preds g =
     Inr (mse_value labels preds, g\<lparr>LOSSES := LOSSES g @ [mse_value labels preds]\<rparr>)"
  by (simp add: mean_squared_error_def compute_weighted_loss_default mse_value_def Let_def)

lemma mean_squared_error_shape:
  "\<not> same_shape preds labels \<Longrightarrow> mean_squared_error labels preds g = Inl ShapeMismatch"
  by (simp add: mean_squared_error_def)

lemma sparse_softmax_cross_entropy_eq:
  "sparse_softmax_cross_entropy_with_logits labels logits = Inr losses \<Longrightarrow>
   sparse_softmax_cross_entropy labels logits Reduction_SUM_BY_NONZERO_WEIGHTS g =
     Inr (safe_mean (sum_list losses) (real (length losses)),
          g\<lparr>LOSSES := LOSSES g @ [safe_mean (sum_list losses) (real (length losses))]\<rparr>)"
  by (simp add: sparse_softmax_cross_entropy_def compute_weighted_loss_default)

lemma sparse_softmax_cross_entropy_err:
  "sparse_softmax_cross_entropy_with_logits labels logits = Inl e \<Longrightarrow>
   sparse_softmax_cross_entropy labels logits red g = Inl e"
  by (simp add: sparse_softmax_cross_entropy_def)

lemma loss_mse_eq:
  assumes "same_shape preds labels"
  shows "\<exists>s g'. loss_mse labels preds b g =
       Inr ((sum_list (LOSSES g) + mse_value labels preds + sum_list (REGULARIZATION_LOSSES g),
             mse_value labels preds, sum_list (REGULARIZATION_LOSSES g), s), g') \<and>
     (if b then \<exists>t1 t2 t3. s = Some (Merged
                  [Scalar t1
                     (sum_list (LOSSES g) + mse_value labels preds + sum_list (REGULARIZATION_LOSSES g)),
                   Scalar t2 (sum_list (REGULARIZATION_LOSSES g)),
                   Scalar t3 (mse_value labels preds)])
      else s = None \<and> g' = g\<lparr>LOSSES := LOSSES g @ [mse_value labels preds]\<rparr>)"
proof -
  define g1 where "g1 = g\<lparr>LOSSES := LOSSES g @ [mse_value labels preds]\<rparr>"
  have g1: "LOSSES g1 \<noteq> []" "sum_list (LOSSES g1) = sum_list (LOSSES g) + mse_value labels preds"
    "REGULARIZATION_LOSSES g1 = REGULARIZATION_LOSSES g"
    by (simp_all add: g1_def)
  from loss_helper_eq [OF g1(1), of "mse_value labels preds" "''loss_mse''" b]
  obtain s g' where h: "loss_helper (mse_value labels preds) ''loss_mse'' b g1 =
       Inr ((sum_list (LOSSES g1) + sum_list (REGULARIZATION_LOSSES g1),
             sum_list (REGULARIZATION_LOSSES g1), s), g')"
    and s: "if b then \<exists>t1 t2 t3. s = Some (Merged
                  [Scalar t1 (sum_list (LOSSES g1) + sum_list (REGULARIZATION_LOSSES g1)),
                   Scalar t2 (sum_list (REGULARIZATION_LOSSES g1)),
                   Scalar t3 (mse_value labels preds)])
      else s = None \<and> g' = g1"
    by blast
  have "loss_mse labels preds b g =
       Inr ((sum_list (LOSSES g1) + sum_list (REGULARIZATION_LOSSES g1),
             mse_value labels preds, sum_list (REGULARIZATION_LOSSES g1), s), g')"
    using assms h by (simp add: loss_mse_def mean_squared_error_eq g1_def)
  with s show ?thesis
    unfolding g1(2,3) unfolding g1_def by blast
qed

lemma loss_mse_err:
  "\<not> same_shape preds labels \<Longrightarrow> loss_mse labels preds b g = Inl ShapeMismatch"
  by (simp add: loss_mse_def mean_squared_error_shape)

lemma loss_xent_eq:
  assumes "sparse_softmax_cross_entropy_with_logits labels logits = Inr losses"
  shows "\<exists>s g'. loss_xent labels logits b g =
       Inr ((sum_list (LOSSES g) + safe_mean (sum_list losses) (real (length losses)) +
               sum_list (REGULARIZATION_LOSSES g),
             safe_mean (sum_list losses) (real (length losses)),
             sum_list (REGULARIZATION_LOSSES g), s), g') \<and>
     (if b then \<exists>t1 t2 t3. s = Some (Merged
                  [Scalar t1
                     (sum_list (LOSSES g) + safe_mean (sum_list losses) (real (length losses)) +
                      sum_list (REGULARIZATION_LOSSES g)),
                   Scalar t2 (sum_list (REGULARIZATION_LOSSES g)),
                   Scalar t3 (safe_mean (sum_list losses) (real (length losses)))])
      else s = None)"
proof -
  define x where "x = safe_mean (sum_list losses) (real (length losses))"
  define g1 where "g1 = g\<lparr>LOSSES := LOSSES g @ [x]\<rparr>"
  have g1: "LOSSES g1 \<noteq> []" "sum_list (LOSSES g1) = sum_list (LOSSES g) + x"
    "REGULARIZATION_LOSSES g1 = REGULARIZATION_LOSSES g"
    by (simp_all add: g1_def)
  from loss_helper_eq [OF g1(1), of x "''loss_cross_entropy''" b]
  obtain s g' where h: "loss_helper x ''loss_cross_entropy'' b g1 =
       Inr ((sum_list (LOSSES g1) + sum_list (REGULARIZATION_LOSSES g1),
             sum_list (REGULARIZATION_LOSSES g1), s), g')"
    and s: "if b then \<exists>t1 t2 t3. s = Some (Merged
                  [Scalar t1 (sum_list (LOSSES g1) + sum_list (REGULARIZATION_LOSSES g1)),
                   Scalar t2 (sum_list (REGULARIZATION_LOSSES g1)),
                   Scalar t3 x])
      else s = None \<and> g' = g1"
    by blast
  have "loss_xent labels logits b g =
       Inr ((sum_list (LOSSES g1) + sum_list (REGULARIZATION_LOSSES g1),
             x, sum_list (REGULARIZATION_LOSSES g1), s), g')"
    using assms h by (simp add: loss_xent_def sparse_softmax_cross_entropy_eq g1_def x_def)
  with s show ?thesis
    unfolding g1(2,3) unfolding x_def by (cases b) auto
qed

lemma loss_xent_err:
  "sparse_softmax_cross_entropy_with_logits labels logits = Inl e \<Longrightarrow> loss_xent labels logits b g = Inl e"
  by (simp add: loss_xent_def sparse_softmax_cross_entropy_err)

lemma loss_nl_as_loss_mse:
  assumes "column 0 preds = Inr dmsp" and "column 1 preds = Inr viirs"
    and "tf_where (map (\<lambda>y. y < 2012) years) dmsp viirs = Inr sel"
  shows "loss_nl labels preds years b g = loss_mse (Vec labels) (Vec sel) b g"
  using assms by (simp add: loss_nl_def loss_mse_def)

lemma loss_nl_cases:
  "(\<exists>e. loss_nl labels preds years b g = Inl e) \<or>
   (\<exists>sel. loss_nl labels preds years b g = loss_mse (Vec labels) (Vec sel) b g)"
proof (cases "column 0 preds")
  case (Inl e)
  then show ?thesis by (simp add: loss_nl_def)
next
  case dmsp: (Inr dmsp)
  show ?thesis
  proof (cases "column 1 preds")
    case (Inl e)
    with dmsp show ?thesis by (simp add: loss_nl_def)
  next
    case viirs: (Inr viirs)
    show ?thesis
    proof (cases "tf_where (map (\<lambda>y. y < 2012) years) dmsp viirs")
      case (Inl e)
      with dmsp viirs show ?thesis by (simp add: loss_nl_def)
    next
      case (Inr sel)
      with dmsp viirs show ?thesis by (auto simp: loss_nl_as_loss_mse)
    qed
  qed
qed

text \<open>
  The total of \<^verbatim>\<open>loss_mse\<close> is the task loss plus the regularization loss exactly when
  the losses registered in the graph before the call sum to zero.
\<close>

lemma loss_mse_total_iff:
  assumes "loss_mse labels preds b g = Inr ((t, l, r, s), g')"
  shows "t = l + r \<longleftrightarrow> sum_list (LOSSES g) = 0"
proof (cases "same_shape preds labels")
  case True
  from loss_mse_eq [OF True, of b g] assms show ?thesis by auto
next
  case False
  with assms show ?thesis by (simp add: loss_mse_err)
qed

lemma column_eq:
  "\<forall>r\<in>set rs. j < length r \<Longrightarrow> column j rs = Inr (map (\<lambda>r. r ! j) rs)"
  by (simp add: column_def list_all_iff)

lemma where_nth:
  assumes "i < length c" and "length xs = length c" and "length ys = length c"
  shows "map (\<lambda>(b, x, y). if b then x else y) (zip c (zip xs ys)) ! i =
           (if c ! i then xs ! i else ys ! i)"
  using assms by simp

lemma tf_where_eq:
  assumes "length xs = length c" and "length ys = length c"
  shows "tf_where c xs ys = Inr (map (\<lambda>(b, x, y). if b then x else y) (zip c (zip xs ys)))"
  using assms by (simp add: tf_where_def)

lemma tf_where_all_true:
  assumes "length xs = length c" and "length ys = length c" and "\<forall>b\<in>set c. b"
  shows "tf_where c xs ys = Inr xs"
proof -
  have "map (\<lambda>(b, x, y). if b then x else y) (zip c (zip xs ys)) = xs"
  proof (rule nth_equalityI)
    show "length (map (\<lambda>(b, x, y). if b then x else y) (zip c (zip xs ys))) = length xs"
      using assms(1,2) by simp
  next
    fix i assume "i < length (map (\<lambda>(b, x, y). if b then x else y) (zip c (zip xs ys)))"
    then have i: "i < length c" by simp
    then have "c ! i" using assms(3) nth_mem by blast
    with i show "map (\<lambda>(b, x, y). if b then x else y) (zip c (zip xs ys)) ! i = xs ! i"
      using where_nth [OF i assms(1,2)] by simp
  qed
  then show ?thesis using assms(1,2) by (simp add: tf_where_eq)
qed

lemma tf_where_all_false:
  assumes "length xs = length c" and "length ys = length c" and "\<forall>b\<in>set c. \<not> b"
  shows "tf_where c xs ys = Inr ys"
proof -
  have "map (\<lambda>(b, x, y). if b then x else y) (zip c (zip xs ys)) = ys"
  proof (rule nth_equalityI)
    show "length (map (\<lambda>(b, x, y). if b then x else y) (zip c (zip xs ys))) = length ys"
      using assms(1,2) by simp
  next
    fix i assume "i < length (map (\<lambda>(b, x, y). if b then x else y) (zip c (zip xs ys)))"
    then have i: "i < length c" by simp
    then have "\<not> c ! i" using assms(3) nth_mem by blast
    with i show "map (\<lambda>(b, x, y). if b then x else y) (zip c (zip xs ys)) ! i = ys ! i"
      using where_nth [OF i assms(1,2)] by simp
  qed
  then show ?thesis using assms(1,2) by (simp add: tf_where_eq)
qed

lemma sum_list_map2_nth:
  assumes "length xs = length ys"
  shows "sum_list (map (\<lambda>(x, y). f x y) (zip xs ys)) = (\<Sum>i<length ys. f (xs ! i) (ys ! i))"
proof -
  have "sum_list (map (\<lambda>(x, y). f x y) (zip xs ys)) =
      (\<Sum>i = 0..<length ys. map (\<lambda>(x, y). f x y) (zip xs ys) ! i)"
    using assms by (simp add: sum_list_sum_nth)
  also have "\<dots> = (\<Sum>i = 0..<length ys. f (xs ! i) (ys ! i))"
    using assms by (intro sum.cong) simp_all
  finally show ?thesis by (simp add: atLeast0LessThan)
qed

lemma mse_value_Vec:
  assumes "length sel = length labels"
  shows "mse_value (Vec labels) (Vec sel) =
     (if labels = [] then 0
      else (\<Sum>i<length labels. (sel ! i - labels ! i)\<^sup>2) / real (length labels))"
proof (cases "labels = []")
  case True
  with assms show ?thesis by (simp add: mse_value_def safe_mean_def)
next
  case False
  have "sum_list (map (\<lambda>(p, l). squared_difference p l) (zip sel labels)) =
      (\<Sum>i<length labels. squared_difference (sel ! i) (labels ! i))"
    using assms by (rule sum_list_map2_nth)
  also have "\<dots> = (\<Sum>i<length labels. (sel ! i - labels ! i)\<^sup>2)"
    by (simp add: squared_difference_def power2_eq_square)
  finally have "sum_list (map (\<lambda>(p, l). squared_difference p l) (zip sel labels)) =
      (\<Sum>i<length labels. (sel ! i - labels ! i)\<^sup>2)" .
  moreover have "sel \<noteq> []"
    using assms False by auto
  ultimately show ?thesis
    using False assms by (simp add: mse_value_def safe_mean_def Let_def)
qed

lemma sum_exp_pos: "row \<noteq> [] \<Longrightarrow> 0 < sum_list (map exp (row :: real list))"
proof (induction row)
  case Nil
  then show ?case by simp
next
  case (Cons z row)
  have "0 \<le> sum_list (map exp row)"
    by (rule sum_list_nonneg) auto
  moreover have "0 < exp z" by simp
  ultimately show ?case by (simp add: add_pos_nonneg)
qed

lemma sum_exp_shift:
  "sum_list (map exp (map (\<lambda>z. z - m) row)) = exp (- m) * sum_list (map exp (row :: real list))"
  by (induction row) (simp_all add: exp_diff exp_minus field_simps)

lemma sparse_xent_row_eq:
  assumes "0 \<le> label" and "label < int (length row)"
  shows "sparse_xent_row label row = Inr (cross_entropy (softmax row) (nat label))"
proof -
  define m where "m = reduce_max row"
  define S where "S = sum_list (map exp row)"
  have k: "nat label < length row" using assms by simp
  then have "row \<noteq> []" by auto
  then have S: "0 < S" unfolding S_def by (rule sum_exp_pos)
  have "ln (sum_list (map exp (map (\<lambda>z. z - m) row))) = ln (exp (- m) * S)"
    unfolding S_def by (subst sum_exp_shift) (rule refl)
  also have "\<dots> = ln S - m"
    using S by (simp add: ln_mult)
  finally have lhs: "ln (sum_list (map exp (map (\<lambda>z. z - m) row))) - map (\<lambda>z. z - m) row ! nat label
      = ln S - row ! nat label"
    using k by simp
  have "cross_entropy (softmax row) (nat label) = - ln (exp (row ! nat label) / S)"
    using k by (simp add: cross_entropy_def softmax_def S_def)
  also have "\<dots> = ln S - row ! nat label"
    using S by (simp add: ln_div)
  finally have rhs: "cross_entropy (softmax row) (nat label) = ln S - row ! nat label" .
  show ?thesis
    using assms lhs rhs by (simp add: sparse_xent_row_def m_def Let_def)
qed

lemma collect_map_Inr: "collect (map (\<lambda>x. Inr (f x)) xs) = Inr (map f xs)"
  by (induction xs) simp_all

lemma sparse_softmax_cross_entropy_with_logits_eq:
  assumes "length labels = length logits"
    and "\<forall>i<length labels. 0 \<le> labels ! i \<and> labels ! i < int (length (logits ! i))"
  shows "sparse_softmax_cross_entropy_with_logits labels logits =
     Inr (map (\<lambda>(l, r). cross_entropy (softmax r) (nat l)) (zip labels logits))"
proof -
  have "map (\<lambda>(l, r). sparse_xent_row l r) (zip labels logits) =
      map (\<lambda>p. Inr ((\<lambda>(l, r). cross_entropy (softmax r) (nat l)) p)) (zip labels logits)"
  proof (rule nth_equalityI)
    show "length (map (\<lambda>(l, r). sparse_xent_row l r) (zip labels logits)) =
        length (map (\<lambda>p. Inr ((\<lambda>(l, r). cross_entropy (softmax r) (nat l)) p))
                  (zip labels logits))"
      by simp
  next
    fix i assume "i < length (map (\<lambda>(l, r). sparse_xent_row l r) (zip labels logits))"
    then have i: "i < length labels" "i < length logits" by simp_all
    with assms(2) have "0 \<le> labels ! i" "labels ! i < int (length (logits ! i))" by simp_all
    then have "sparse_xent_row (labels ! i) (logits ! i) =
        Inr (cross_entropy (softmax (logits ! i)) (nat (labels ! i)))"
      by (rule sparse_xent_row_eq)
    with i show "map (\<lambda>(l, r). sparse_xent_row l r) (zip labels logits) ! i =
        map (\<lambda>p. Inr ((\<lambda>(l, r). cross_entropy (softmax r) (nat l)) p)) (zip labels logits) ! i"
      by simp
  qed
  then have "collect (map (\<lambda>(l, r). sparse_xent_row l r) (zip labels logits)) =
      Inr (map (\<lambda>(l, r). cross_entropy (softmax r) (nat l)) (zip labels logits))"
    by (simp only: collect_map_Inr)
  with assms(1) show ?thesis
    by (simp only: sparse_softmax_cross_entropy_with_logits_def simp_thms if_False)
qed

lemma mean_by_nonzero_weights_ones:
  "mean_by_nonzero_weights xs (replicate (length xs) 1) =
     (if xs = [] then 0 else sum_list xs / real (length xs))"
proof -
  have "filter (\<lambda>w. w \<noteq> 0) (replicate (length xs) (1::real)) = replicate (length xs) 1"
    by simp
  moreover have "map (\<lambda>(x, w). x * w) (zip xs (replicate (length xs) (1::real))) = xs"
    by (induction xs) simp_all
  ultimately show ?thesis
    by (simp add: mean_by_nonzero_weights_def Let_def)
qed

section \<open>The claims\<close>

subsection \<open>Total, task and regularization loss\<close>

text \<open>
  Claim C1: for every call of \<^verbatim>\<open>loss_nl\<close>, \<^verbatim>\<open>loss_mse\<close> and \<^verbatim>\<open>loss_xent\<close> the returned
  total loss is the returned task loss plus the returned regularization loss. The
  docstrings say so (\<^verbatim>\<open>loss_total: loss_mse + loss_reg\<close>), but the total is read from
  the graph with \<^verbatim>\<open>get_total_loss\<close> and counts every loss registered there. The
  theorem runs \<^verbatim>\<open>loss_mse\<close> on a fresh graph, which registers the loss \<open>1\<close>, and then
  each of the three functions on the resulting graph: \<^verbatim>\<open>loss_mse\<close> and \<^verbatim>\<open>loss_nl\<close>
  return the total \<open>5\<close> with task loss \<open>4\<close> and regularization loss \<open>0\<close>,
  \<^verbatim>\<open>loss_xent\<close> the total \<open>1\<close> with task loss \<open>0\<close> and regularization loss \<open>0\<close>.
\<close>

theorem second_call_total_exceeds_task_plus_reg:
  "loss_mse (Vec [0]) (Vec [1]) False fresh_graph =
     Inr ((1, 1, 0, None), \<lparr>LOSSES = [1], REGULARIZATION_LOSSES = [], SUMMARIES = [],
       names_in_use = [], name_stack = []\<rparr>) \<and>
   loss_mse (Vec [0]) (Vec [2]) False \<lparr>LOSSES = [1], REGULARIZATION_LOSSES = [], SUMMARIES = [],
       names_in_use = [], name_stack = []\<rparr> =
     Inr ((5, 4, 0, None), \<lparr>LOSSES = [1, 4], REGULARIZATION_LOSSES = [], SUMMARIES = [],
       names_in_use = [], name_stack = []\<rparr>) \<and>
   loss_nl [0] [[2, 7]] [2011] False \<lparr>LOSSES = [1], REGULARIZATION_LOSSES = [], SUMMARIES = [],
       names_in_use = [], name_stack = []\<rparr> =
     Inr ((5, 4, 0, None), \<lparr>LOSSES = [1, 4], REGULARIZATION_LOSSES = [], SUMMARIES = [],
       names_in_use = [], name_stack = []\<rparr>) \<and>
   loss_xent [0] [[0]] False \<lparr>LOSSES = [1], REGULARIZATION_LOSSES = [], SUMMARIES = [],
       names_in_use = [], name_stack = []\<rparr> =
     Inr ((1, 0, 0, None), \<lparr>LOSSES = [1, 0], REGULARIZATION_LOSSES = [], SUMMARIES = [],
       names_in_use = [], name_stack = []\<rparr>) \<and>
   (5::real) \<noteq> 4 + 0 \<and> (1::real) \<noteq> 0 + 0"
  by (simp add: eval_defs)

text \<open>
  Claim C2: \<^verbatim>\<open>_loss_helper\<close> returns as total the task loss it was given plus the
  regularization loss it retrieves, for every task loss and every state of the graph.
  The helper does not use its argument for the total. The graph of the theorem is the
  one a second call of \<^verbatim>\<open>loss_mse\<close> hands to the helper: an earlier loss \<open>1\<close>, the
  task loss \<open>4\<close> just registered, and the regularization loss \<open>2\<close>. The helper
  returns the total \<open>7\<close>, not \<open>4 + 2\<close>, and returns the same total when it is given
  the task loss \<open>8\<close>; on a graph with nothing registered the call raises.
\<close>

theorem loss_helper_total_ignores_loss:
  "loss_helper 4 ''loss_mse'' False
       \<lparr>LOSSES = [1, 4], REGULARIZATION_LOSSES = [2], SUMMARIES = [],
       names_in_use = [], name_stack = []\<rparr> =
     Inr ((7, 2, None), \<lparr>LOSSES = [1, 4], REGULARIZATION_LOSSES = [2], SUMMARIES = [],
       names_in_use = [], name_stack = []\<rparr>) \<and>
   (7::real) \<noteq> 4 + 2 \<and>
   loss_helper 8 ''loss_mse'' False
       \<lparr>LOSSES = [1, 4], REGULARIZATION_LOSSES = [2], SUMMARIES = [],
       names_in_use = [], name_stack = []\<rparr> =
     Inr ((7, 2, None), \<lparr>LOSSES = [1, 4], REGULARIZATION_LOSSES = [2], SUMMARIES = [],
       names_in_use = [], name_stack = []\<rparr>) \<and>
   loss_helper 4 ''loss_mse'' False fresh_graph = Inl EmptyAddN"
  by (simp add: eval_defs)

text \<open>
  Claim C6: when the regularization collection is empty or holds zero, the total loss
  equals the task loss for every call of the three functions, and the regularization
  loss is zero rather than a failure. The second half holds in both calls below (the
  third component is \<open>0\<close>); the first half fails on a graph that already holds the
  loss \<open>3\<close>: the task loss is \<open>0\<close> and the total is \<open>3\<close>.
\<close>

theorem zero_regularization_total_differs_from_task:
  "loss_mse (Vec [2]) (Vec [2]) False \<lparr>LOSSES = [3], REGULARIZATION_LOSSES = [], SUMMARIES = [],
       names_in_use = [], name_stack = []\<rparr> =
     Inr ((3, 0, 0, None), \<lparr>LOSSES = [3, 0], REGULARIZATION_LOSSES = [], SUMMARIES = [],
       names_in_use = [], name_stack = []\<rparr>) \<and>
   loss_mse (Vec [2]) (Vec [2]) False \<lparr>LOSSES = [3], REGULARIZATION_LOSSES = [0], SUMMARIES = [],
       names_in_use = [], name_stack = []\<rparr> =
     Inr ((3, 0, 0, None), \<lparr>LOSSES = [3, 0], REGULARIZATION_LOSSES = [0], SUMMARIES = [],
       names_in_use = [], name_stack = []\<rparr>) \<and>
   (3::real) \<noteq> 0"
  by (simp add: eval_defs)

text \<open>
  Claim C9: for \<^verbatim>\<open>labels = [1.0, 2.0, 3.0]\<close> and \<^verbatim>\<open>predictions = [1.0, 2.0, 4.0]\<close>
  with a zero regularization accumulator, \<^verbatim>\<open>loss_mse\<close> returns the task loss \<open>1/3\<close>
  and the total loss \<open>1/3\<close>. The scenario is run by itself: the graph holds the
  regularization collection, which sums to zero, and no loss of an earlier call.
\<close>

theorem loss_mse_scenario:
  assumes "sum_list regs = 0"
  shows "\<exists>s g'. loss_mse (Vec [1, 2, 3]) (Vec [1, 2, 4]) b
            \<lparr>LOSSES = [], REGULARIZATION_LOSSES = regs, SUMMARIES = ss,
             names_in_use = ns, name_stack = sc\<rparr> =
          Inr ((1 / 3, 1 / 3, 0, s), g')"
proof -
  have "mse_value (Vec [1, 2, 3]) (Vec [1, 2, 4]) = 1 / 3"
    by (simp add: mse_value_def safe_mean_def squared_difference_def Let_def)
  moreover have "same_shape (Vec [1, 2, 4]) (Vec [1, 2, 3])"
    by simp
  ultimately show ?thesis
    using assms
      loss_mse_eq [of "Vec [1, 2, 4]" "Vec [1, 2, 3]" b
        "\<lparr>LOSSES = [], REGULARIZATION_LOSSES = regs, SUMMARIES = ss,
          names_in_use = ns, name_stack = sc\<rparr>"]
    by auto
qed

theorem loss_mse_scenario_witness:
  "sum_list [0 :: real] = 0 \<and>
   (\<exists>s g'. loss_mse (Vec [1, 2, 3]) (Vec [1, 2, 4]) True
            \<lparr>LOSSES = [], REGULARIZATION_LOSSES = [0], SUMMARIES = [],
             names_in_use = [], name_stack = []\<rparr> =
          Inr ((1 / 3, 1 / 3, 0, s), g'))"
proof -
  have h: "sum_list [0 :: real] = 0" by simp
  from loss_mse_scenario [OF h, of True "[]" "[]" "[]"] h show ?thesis by blast
qed

subsection \<open>Nightlights selection\<close>

text \<open>
  Claim C3: \<^verbatim>\<open>loss_nl\<close> selects per example, the first column (DMSP) exactly when the
  year of the example is below 2012 and the second column (VIIRS) otherwise, the year
  2012 included; the task loss is the mean squared error between the selected
  predictions and the labels over the batch (\<open>0\<close> for an empty batch). The
  hypotheses are the shapes of the docstring: one label, one year and one row of at
  least two predictions per example.
\<close>

theorem loss_nl_selects_per_example:
  assumes "length labels = length years" and "length preds = length years"
    and "\<forall>r\<in>set preds. 2 \<le> length r"
  shows "\<exists>sel total reg s g'.
     length sel = length years \<and>
     (\<forall>i<length years. sel ! i = (if years ! i < 2012 then preds ! i ! 0 else preds ! i ! 1)) \<and>
     loss_nl labels preds years b g =
       Inr ((total,
             if years = [] then 0
             else (\<Sum>i<length years. (sel ! i - labels ! i)\<^sup>2) / real (length years),
             reg, s), g')"
proof -
  define c where "c = map (\<lambda>y. y < 2012) years"
  define dmsp where "dmsp = map (\<lambda>r. r ! 0) preds"
  define viirs where "viirs = map (\<lambda>r. r ! 1) preds"
  define sel where "sel = map (\<lambda>(b, x, y). if b then x else y) (zip c (zip dmsp viirs))"
  have c0: "column 0 preds = Inr dmsp"
    unfolding dmsp_def using assms(3) by (intro column_eq) force
  have c1: "column 1 preds = Inr viirs"
    unfolding viirs_def using assms(3) by (intro column_eq) force
  have l0: "length dmsp = length c" and l1: "length viirs = length c"
    using assms(2) by (simp_all add: dmsp_def viirs_def c_def)
  have w: "tf_where c dmsp viirs = Inr sel"
    unfolding sel_def by (rule tf_where_eq [OF l0 l1])
  have len: "length sel = length years"
    using l0 l1 by (simp add: sel_def c_def)
  have nth: "sel ! i = (if years ! i < 2012 then preds ! i ! 0 else preds ! i ! 1)"
    if "i < length years" for i
  proof -
    have i: "i < length c" using that by (simp add: c_def)
    have "sel ! i = (if c ! i then dmsp ! i else viirs ! i)"
      unfolding sel_def by (rule where_nth [OF i l0 l1])
    then show ?thesis
      using that assms(2) by (simp add: c_def dmsp_def viirs_def)
  qed
  have "loss_nl labels preds years b g = loss_mse (Vec labels) (Vec sel) b g"
    using c0 c1 w unfolding c_def by (rule loss_nl_as_loss_mse)
  moreover have "same_shape (Vec sel) (Vec labels)"
    using len assms(1) by simp
  moreover have "mse_value (Vec labels) (Vec sel) =
      (if years = [] then 0
       else (\<Sum>i<length years. (sel ! i - labels ! i)\<^sup>2) / real (length years))"
    using mse_value_Vec [of sel labels] len assms(1) by auto
  ultimately have "\<exists>total reg s g'. loss_nl labels preds years b g =
       Inr ((total,
             if years = [] then 0
             else (\<Sum>i<length years. (sel ! i - labels ! i)\<^sup>2) / real (length years),
             reg, s), g')"
    using loss_mse_eq [of "Vec sel" "Vec labels" b g] by auto
  with len nth show ?thesis by blast
qed

theorem loss_nl_selects_per_example_witness:
  "\<exists>sel total reg s g'.
     length sel = length [2011, 2012 :: int] \<and>
     (\<forall>i<length [2011, 2012 :: int]. sel ! i =
        (if [2011, 2012 :: int] ! i < 2012 then [[1, 5], [7, 2 :: real]] ! i ! 0
         else [[1, 5], [7, 2]] ! i ! 1)) \<and>
     loss_nl [1, 4] [[1, 5], [7, 2]] [2011, 2012] True fresh_graph =
       Inr ((total,
             if [2011, 2012 :: int] = [] then 0
             else (\<Sum>i<length [2011, 2012 :: int]. (sel ! i - [1, 4] ! i)\<^sup>2) /
                  real (length [2011, 2012 :: int]),
             reg, s), g')"
  by (rule loss_nl_selects_per_example) simp_all

text \<open>
  Claim C4: on a batch whose years are all below 2012, \<^verbatim>\<open>loss_nl\<close> returns what
  \<^verbatim>\<open>loss_mse\<close> returns on the labels and the first column of the predictions; on a
  batch whose years are all at least 2012, what \<^verbatim>\<open>loss_mse\<close> returns on the labels
  and the second column. The two results are equal as a whole: losses, summary and
  graph.
\<close>

theorem loss_nl_single_sensor:
  assumes "length preds = length years" and "\<forall>r\<in>set preds. 2 \<le> length r"
  shows "((\<forall>y\<in>set years. y < 2012) \<longrightarrow>
            loss_nl labels preds years b g =
              loss_mse (Vec labels) (Vec (map (\<lambda>r. r ! 0) preds)) b g) \<and>
         ((\<forall>y\<in>set years. 2012 \<le> y) \<longrightarrow>
            loss_nl labels preds years b g =
              loss_mse (Vec labels) (Vec (map (\<lambda>r. r ! 1) preds)) b g)"
proof -
  have c0: "column 0 preds = Inr (map (\<lambda>r. r ! 0) preds)"
    using assms(2) by (intro column_eq) force
  have c1: "column 1 preds = Inr (map (\<lambda>r. r ! 1) preds)"
    using assms(2) by (intro column_eq) force
  have l0: "length (map (\<lambda>r. r ! 0) preds) = length (map (\<lambda>y. y < 2012) years)"
    using assms(1) by simp
  have l1: "length (map (\<lambda>r. r ! 1) preds) = length (map (\<lambda>y. y < 2012) years)"
    using assms(1) by simp
  have dmsp: "loss_nl labels preds years b g =
      loss_mse (Vec labels) (Vec (map (\<lambda>r. r ! 0) preds)) b g"
    if "\<forall>y\<in>set years. y < 2012"
  proof -
    have "\<forall>b\<in>set (map (\<lambda>y. y < 2012) years). b" using that by simp
    then have "tf_where (map (\<lambda>y. y < 2012) years) (map (\<lambda>r. r ! 0) preds) (map (\<lambda>r. r ! 1) preds)
        = Inr (map (\<lambda>r. r ! 0) preds)"
      by (rule tf_where_all_true [OF l0 l1])
    with c0 c1 show ?thesis by (rule loss_nl_as_loss_mse)
  qed
  have viirs: "loss_nl labels preds years b g =
      loss_mse (Vec labels) (Vec (map (\<lambda>r. r ! 1) preds)) b g"
    if "\<forall>y\<in>set years. 2012 \<le> y"
  proof -
    have "\<forall>b\<in>set (map (\<lambda>y. y < 2012) years). \<not> b" using that by auto
    then have "tf_where (map (\<lambda>y. y < 2012) years) (map (\<lambda>r. r ! 0) preds) (map (\<lambda>r. r ! 1) preds)
        = Inr (map (\<lambda>r. r ! 1) preds)"
      by (rule tf_where_all_false [OF l0 l1])
    with c0 c1 show ?thesis by (rule loss_nl_as_loss_mse)
  qed
  from dmsp viirs show ?thesis by blast
qed

theorem loss_nl_single_sensor_witness:
  "loss_nl [1, 4] [[1, 5], [7, 2]] [2010, 2011] True fresh_graph =
     loss_mse (Vec [1, 4]) (Vec [1, 7]) True fresh_graph \<and>
   loss_nl [1, 4] [[1, 5], [7, 2]] [2012, 2015] True fresh_graph =
     loss_mse (Vec [1, 4]) (Vec [5, 2]) True fresh_graph"
  using loss_nl_single_sensor [of "[[1, 5], [7, 2]]" "[2010, 2011]" "[1, 4]" True fresh_graph]
    loss_nl_single_sensor [of "[[1, 5], [7, 2]]" "[2012, 2015]" "[1, 4]" True fresh_graph]
  by simp

subsection \<open>Cross-entropy\<close>

text \<open>
  Claim C5: given labels in \<open>[0, num_classes)\<close> and one row of logits per example,
  the task loss of \<^verbatim>\<open>loss_xent\<close> is the softmax cross-entropy summed over the examples
  and divided by the number of examples with nonzero weight. Every example has the
  default weight \<open>1.0\<close>, so that number is the batch size
  (\<open>mean_by_nonzero_weights_ones\<close>).
\<close>

theorem loss_xent_mean_softmax_cross_entropy:
  assumes "length labels = length logits"
    and "\<forall>i<length labels. 0 \<le> labels ! i \<and> labels ! i < int (length (logits ! i))"
  shows "\<exists>total reg s g'.
     loss_xent labels logits b g =
       Inr ((total,
             mean_by_nonzero_weights
               (map (\<lambda>(l, r). cross_entropy (softmax r) (nat l)) (zip labels logits))
               (replicate (length labels) 1),
             reg, s), g')"
proof -
  define losses where
    "losses = map (\<lambda>(l, r). cross_entropy (softmax r) (nat l)) (zip labels logits)"
  have len: "length losses = length labels"
    using assms(1) by (simp add: losses_def)
  have rows: "sparse_softmax_cross_entropy_with_logits labels logits = Inr losses"
    unfolding losses_def using assms by (rule sparse_softmax_cross_entropy_with_logits_eq)
  have "safe_mean (sum_list losses) (real (length losses)) =
      mean_by_nonzero_weights losses (replicate (length losses) 1)"
    by (simp add: mean_by_nonzero_weights_ones safe_mean_def)
  then have "safe_mean (sum_list losses) (real (length losses)) =
      mean_by_nonzero_weights losses (replicate (length labels) 1)"
    using len by simp
  then show ?thesis
    unfolding losses_def [symmetric]
    using loss_xent_eq [OF rows, of b g] by auto
qed

theorem loss_xent_mean_softmax_cross_entropy_witness:
  "\<exists>total reg s g'.
     loss_xent [0, 1] [[2, 1 / 2], [1 / 5, 3 / 2]] True fresh_graph =
       Inr ((total,
             mean_by_nonzero_weights
               [cross_entropy (softmax [2, 1 / 2]) 0, cross_entropy (softmax [1 / 5, 3 / 2]) 1]
               [1, 1],
             reg, s), g')"
proof -
  have h1: "length [0, 1 :: int] = length [[2, 1 / 2], [1 / 5, 3 / 2 :: real]]" by simp
  have h2: "\<forall>i<length [0, 1 :: int]. 0 \<le> [0, 1 :: int] ! i \<and>
      [0, 1 :: int] ! i < int (length ([[2, 1 / 2], [1 / 5, 3 / 2 :: real]] ! i))"
    by (simp add: less_Suc_eq)
  from loss_xent_mean_softmax_cross_entropy [OF h1 h2, of True fresh_graph]
  show ?thesis by (simp add: numeral_2_eq_2)
qed

subsection \<open>Summaries\<close>

text \<open>
  Claim C7: in every call of the three functions that returns, the summary component
  is absent when the flag is false, and is a bundle of exactly three scalar records
  when the flag is true.
\<close>

theorem summary_present_iff_flag:
  "(loss_nl labels preds years b g = Inr ((t, l, r, s), g') \<longrightarrow>
      (if b then \<exists>m. s = Some m \<and> three_scalars m else s = None)) \<and>
   (loss_mse labels2 preds2 b g = Inr ((t, l, r, s), g') \<longrightarrow>
      (if b then \<exists>m. s = Some m \<and> three_scalars m else s = None)) \<and>
   (loss_xent labels3 logits b g = Inr ((t, l, r, s), g') \<longrightarrow>
      (if b then \<exists>m. s = Some m \<and> three_scalars m else s = None))"
proof -
  have mse: "if b then \<exists>m. s = Some m \<and> three_scalars m else s = None"
    if "loss_mse lb pr b g = Inr ((t, l, r, s), g')" for lb pr
  proof (cases "same_shape pr lb")
    case True
    from loss_mse_eq [OF True, of b g] that show ?thesis
      by (cases b) auto
  next
    case False
    with that show ?thesis by (simp add: loss_mse_err)
  qed
  have nl: "if b then \<exists>m. s = Some m \<and> three_scalars m else s = None"
    if "loss_nl labels preds years b g = Inr ((t, l, r, s), g')"
    using loss_nl_cases [of labels preds years b g] that mse by auto
  have xent: "if b then \<exists>m. s = Some m \<and> three_scalars m else s = None"
    if "loss_xent labels3 logits b g = Inr ((t, l, r, s), g')"
  proof (cases "sparse_softmax_cross_entropy_with_logits labels3 logits")
    case (Inl e)
    with that show ?thesis by (simp add: loss_xent_err)
  next
    case (Inr losses)
    from loss_xent_eq [OF Inr, of b g] that show ?thesis
      by (cases b) auto
  qed
  from mse nl xent show ?thesis by blast
qed

theorem summary_present_iff_flag_witness:
  "(\<exists>t l r s g'. loss_nl [1, 4] [[1, 5], [7, 2]] [2011, 2012] True fresh_graph = Inr ((t, l, r, s), g') \<and>
      (\<exists>m. s = Some m \<and> three_scalars m)) \<and>
   (\<exists>t l r g'. loss_nl [1, 4] [[1, 5], [7, 2]] [2011, 2012] False fresh_graph = Inr ((t, l, r, None), g')) \<and>
   (\<exists>t l r s g'. loss_mse (Vec [1, 2, 3]) (Vec [1, 2, 4]) True fresh_graph = Inr ((t, l, r, s), g') \<and>
      (\<exists>m. s = Some m \<and> three_scalars m)) \<and>
   (\<exists>t l r g'. loss_mse (Vec [1, 2, 3]) (Vec [1, 2, 4]) False fresh_graph = Inr ((t, l, r, None), g')) \<and>
   (\<exists>t l r s g'. loss_xent [0] [[0]] True fresh_graph = Inr ((t, l, r, s), g') \<and>
      (\<exists>m. s = Some m \<and> three_scalars m)) \<and>
   (\<exists>t l r g'. loss_xent [0] [[0]] False fresh_graph = Inr ((t, l, r, None), g'))"
proof -
  obtain t1 l1 r1 s1 g1 where
    nl: "loss_nl [1, 4] [[1, 5], [7, 2]] [2011, 2012] True fresh_graph = Inr ((t1, l1, r1, s1), g1)"
    by (simp add: eval_defs)
  obtain t2 l2 r2 s2 g2 where
    nl': "loss_nl [1, 4] [[1, 5], [7, 2]] [2011, 2012] False fresh_graph = Inr ((t2, l2, r2, s2), g2)"
    by (simp add: eval_defs)
  obtain t3 l3 r3 s3 g3 where
    mse: "loss_mse (Vec [1, 2, 3]) (Vec [1, 2, 4]) True fresh_graph = Inr ((t3, l3, r3, s3), g3)"
    using loss_mse_eq [of "Vec [1, 2, 4]" "Vec [1, 2, 3]" True fresh_graph] by auto
  obtain t4 l4 r4 s4 g4 where
    mse': "loss_mse (Vec [1, 2, 3]) (Vec [1, 2, 4]) False fresh_graph = Inr ((t4, l4, r4, s4), g4)"
    using loss_mse_eq [of "Vec [1, 2, 4]" "Vec [1, 2, 3]" False fresh_graph] by auto
  obtain t5 l5 r5 s5 g5 where
    xent: "loss_xent [0] [[0]] True fresh_graph = Inr ((t5, l5, r5, s5), g5)"
    by (simp add: eval_defs)
  obtain t6 l6 r6 s6 g6 where
    xent': "loss_xent [0] [[0]] False fresh_graph = Inr ((t6, l6, r6, s6), g6)"
    by (simp add: eval_defs)
  from summary_present_iff_flag [THEN conjunct1, rule_format, OF nl]
  have a: "\<exists>m. s1 = Some m \<and> three_scalars m" by simp
  from summary_present_iff_flag [THEN conjunct1, rule_format, OF nl']
  have b: "s2 = None" by simp
  from summary_present_iff_flag [THEN conjunct2, THEN conjunct1, rule_format, OF mse]
  have c: "\<exists>m. s3 = Some m \<and> three_scalars m" by simp
  from summary_present_iff_flag [THEN conjunct2, THEN conjunct1, rule_format, OF mse']
  have d: "s4 = None" by simp
  from summary_present_iff_flag [THEN conjunct2, THEN conjunct2, rule_format, OF xent]
  have e: "\<exists>m. s5 = Some m \<and> three_scalars m" by simp
  from summary_present_iff_flag [THEN conjunct2, THEN conjunct2, rule_format, OF xent']
  have f: "s6 = None" by simp
  from nl nl' mse mse' xent xent' a b c d e f show ?thesis by blast
qed

text \<open>
  Claim C8: with summaries enabled, the three records are emitted under the fixed names
  \<^verbatim>\<open>loss_total\<close>, \<^verbatim>\<open>loss_regularization_only\<close> and a third name that is
  \<^verbatim>\<open>loss_mse\<close> for \<^verbatim>\<open>loss_nl\<close> and \<^verbatim>\<open>loss_mse\<close> and \<^verbatim>\<open>loss_cross_entropy\<close> for
  \<^verbatim>\<open>loss_xent\<close>, merged into one bundle. These are the names the module passes to
  \<^verbatim>\<open>tf.summary.scalar\<close>, which makes them unique in the graph before it uses them as
  tags. On a second call with summaries enabled on one graph the records are emitted
  under \<^verbatim>\<open>loss_total_1\<close>, \<^verbatim>\<open>loss_regularization_only_1\<close> and \<^verbatim>\<open>loss_mse_1\<close>: the
  first theorem below runs \<^verbatim>\<open>loss_mse\<close> twice from the fresh graph.
\<close>

theorem summary_names_counterexample:
  "loss_mse (Vec [0]) (Vec [1]) True fresh_graph =
     Inr ((1, 1, 0,
           Some (Merged [Scalar ''loss_total'' 1, Scalar ''loss_regularization_only'' 0,
                         Scalar ''loss_mse'' 1])),
          \<lparr>LOSSES = [1], REGULARIZATION_LOSSES = [],
           SUMMARIES = [Scalar ''loss_total'' 1, Scalar ''loss_regularization_only'' 0,
                        Scalar ''loss_mse'' 1],
           names_in_use = [(''loss_total'', 1), (''loss_regularization_only'', 1),
                           (''loss_mse'', 1)],
           name_stack = []\<rparr>) \<and>
   loss_mse (Vec [0]) (Vec [1]) True
       \<lparr>LOSSES = [1], REGULARIZATION_LOSSES = [],
        SUMMARIES = [Scalar ''loss_total'' 1, Scalar ''loss_regularization_only'' 0,
                     Scalar ''loss_mse'' 1],
        names_in_use = [(''loss_total'', 1), (''loss_regularization_only'', 1),
                        (''loss_mse'', 1)],
        name_stack = []\<rparr> =
     Inr ((2, 1, 0,
           Some (Merged [Scalar ''loss_total_1'' 2, Scalar ''loss_regularization_only_1'' 0,
                         Scalar ''loss_mse_1'' 1])),
          \<lparr>LOSSES = [1, 1], REGULARIZATION_LOSSES = [],
           SUMMARIES = [Scalar ''loss_total'' 1, Scalar ''loss_regularization_only'' 0,
                        Scalar ''loss_mse'' 1, Scalar ''loss_total_1'' 2,
                        Scalar ''loss_regularization_only_1'' 0, Scalar ''loss_mse_1'' 1],
           names_in_use = [(''loss_total'', 2), (''loss_regularization_only'', 2),
                           (''loss_mse'', 2), (''loss_total_1'', 1),
                           (''loss_regularization_only_1'', 1), (''loss_mse_1'', 1)],
           name_stack = []\<rparr>) \<and>
   Merged [Scalar ''loss_total_1'' 2, Scalar ''loss_regularization_only_1'' 0,
           Scalar ''loss_mse_1'' 1] \<noteq>
   Merged [Scalar ''loss_total'' 2, Scalar ''loss_regularization_only'' 0,
           Scalar ''loss_mse'' 1]"
  by (simp add: eval_defs probe.simps dec.simps digit_def)

text \<open>
  Inside a name scope the tags carry the prefix of the scope, here \<^verbatim>\<open>train\<close>.
\<close>

lemma summary_names_in_scope:
  "loss_mse (Vec [0]) (Vec [1]) True (fresh_graph\<lparr>name_stack := ''train''\<rparr>) =
     Inr ((1, 1, 0,
           Some (Merged [Scalar ''train/loss_total'' 1,
                         Scalar ''train/loss_regularization_only'' 0,
                         Scalar ''train/loss_mse'' 1])),
          \<lparr>LOSSES = [1], REGULARIZATION_LOSSES = [],
           SUMMARIES = [Scalar ''train/loss_total'' 1,
                        Scalar ''train/loss_regularization_only'' 0,
                        Scalar ''train/loss_mse'' 1],
           names_in_use = [(''train/loss_total'', 1), (''train/loss_regularization_only'', 1),
                           (''train/loss_mse'', 1)],
           name_stack = ''train''\<rparr>)"
  by (simp add: eval_defs)

text \<open>
  Claim C8 as amended: with summaries enabled, in a call made outside any name scope on
  a graph in which the names involved are not in use yet (as in the first call with
  summaries on a graph), the three records are emitted under the names
  \<^verbatim>\<open>loss_total\<close>, \<^verbatim>\<open>loss_regularization_only\<close> and \<^verbatim>\<open>loss_mse\<close> (\<^verbatim>\<open>loss_nl\<close>,
  \<^verbatim>\<open>loss_mse\<close>) or \<^verbatim>\<open>loss_cross_entropy\<close> (\<^verbatim>\<open>loss_xent\<close>), holding the total, the
  regularization and the task loss, merged into one bundle.
\<close>

theorem summary_names:
  assumes "name_stack g = []"
    and "\<not> name_in_use ''loss_total'' g"
    and "\<not> name_in_use ''loss_regularization_only'' g"
  shows
  "(\<not> name_in_use ''loss_mse'' g \<and>
    loss_nl labels preds years True g = Inr ((t, l, r, s), g') \<longrightarrow>
      s = Some (Merged [Scalar ''loss_total'' t, Scalar ''loss_regularization_only'' r,
                        Scalar ''loss_mse'' l])) \<and>
   (\<not> name_in_use ''loss_mse'' g \<and>
    loss_mse labels2 preds2 True g = Inr ((t, l, r, s), g') \<longrightarrow>
      s = Some (Merged [Scalar ''loss_total'' t, Scalar ''loss_regularization_only'' r,
                        Scalar ''loss_mse'' l])) \<and>
   (\<not> name_in_use ''loss_cross_entropy'' g \<and>
    loss_xent labels3 logits True g = Inr ((t, l, r, s), g') \<longrightarrow>
      s = Some (Merged [Scalar ''loss_total'' t, Scalar ''loss_regularization_only'' r,
                        Scalar ''loss_cross_entropy'' l]))"
proof -
  have helper: "\<exists>g''. loss_helper x name True (g\<lparr>LOSSES := LOSSES g @ [x]\<rparr>) =
      Inr ((sum_list (LOSSES g) + x + sum_list (REGULARIZATION_LOSSES g),
            sum_list (REGULARIZATION_LOSSES g),
            Some (Merged
              [Scalar ''loss_total'' (sum_list (LOSSES g) + x + sum_list (REGULARIZATION_LOSSES g)),
               Scalar ''loss_regularization_only'' (sum_list (REGULARIZATION_LOSSES g)),
               Scalar name x])), g'')"
    if "\<not> name_in_use name g" and "name = ''loss_mse'' \<or> name = ''loss_cross_entropy''"
    for x name
  proof -
    define g1 where "g1 = g\<lparr>LOSSES := LOSSES g @ [x]\<rparr>"
    have "LOSSES g1 \<noteq> []" and "name_stack g1 = []"
      and "\<not> name_in_use ''loss_total'' g1"
      and "\<not> name_in_use ''loss_regularization_only'' g1"
      and "\<not> name_in_use name g1"
      using assms that(1) by (simp_all add: g1_def name_in_use_def)
    from loss_helper_first_use [OF this that(2), of x]
    show ?thesis by (simp add: g1_def)
  qed
  have mse: "s = Some (Merged [Scalar ''loss_total'' t, Scalar ''loss_regularization_only'' r,
                        Scalar ''loss_mse'' l])"
    if "\<not> name_in_use ''loss_mse'' g" and "loss_mse lb pr True g = Inr ((t, l, r, s), g')"
    for lb pr
  proof (cases "same_shape pr lb")
    case True
    from helper [OF that(1), of "mse_value lb pr"] that(2) True show ?thesis
      by (auto simp: loss_mse_def mean_squared_error_eq)
  next
    case False
    with that show ?thesis by (simp add: loss_mse_err)
  qed
  have nl: "s = Some (Merged [Scalar ''loss_total'' t, Scalar ''loss_regularization_only'' r,
                        Scalar ''loss_mse'' l])"
    if "\<not> name_in_use ''loss_mse'' g"
      and "loss_nl labels preds years True g = Inr ((t, l, r, s), g')"
    using loss_nl_cases [of labels preds years True g] that mse by auto
  have xent: "s = Some (Merged [Scalar ''loss_total'' t, Scalar ''loss_regularization_only'' r,
                        Scalar ''loss_cross_entropy'' l])"
    if "\<not> name_in_use ''loss_cross_entropy'' g"
      and "loss_xent labels3 logits True g = Inr ((t, l, r, s), g')"
  proof (cases "sparse_softmax_cross_entropy_with_logits labels3 logits")
    case (Inl e)
    with that show ?thesis by (simp add: loss_xent_err)
  next
    case (Inr losses)
    from helper [OF that(1), of "safe_mean (sum_list losses) (real (length losses))"] that(2) Inr
    show ?thesis
      by (auto simp: loss_xent_def sparse_softmax_cross_entropy_eq)
  qed
  from mse nl xent show ?thesis by blast
qed

theorem summary_names_witness:
  "(\<exists>t l r g'. loss_nl [1, 4] [[1, 5], [7, 2]] [2011, 2012] True fresh_graph =
      Inr ((t, l, r, Some (Merged [Scalar ''loss_total'' t,
              Scalar ''loss_regularization_only'' r, Scalar ''loss_mse'' l])), g')) \<and>
   (\<exists>t l r g'. loss_mse (Vec [1, 2, 3]) (Vec [1, 2, 4]) True fresh_graph =
      Inr ((t, l, r, Some (Merged [Scalar ''loss_total'' t,
              Scalar ''loss_regularization_only'' r, Scalar ''loss_mse'' l])), g')) \<and>
   (\<exists>t l r g'. loss_xent [0] [[0]] True fresh_graph =
      Inr ((t, l, r, Some (Merged [Scalar ''loss_total'' t,
              Scalar ''loss_regularization_only'' r, Scalar ''loss_cross_entropy'' l])), g'))"
proof -
  have st: "name_stack fresh_graph = []"
    and u1: "\<not> name_in_use ''loss_total'' fresh_graph"
    and u2: "\<not> name_in_use ''loss_regularization_only'' fresh_graph"
    and u3: "\<not> name_in_use ''loss_mse'' fresh_graph"
    and u4: "\<not> name_in_use ''loss_cross_entropy'' fresh_graph"
    by (simp_all add: fresh_graph_def name_in_use_def)
  obtain t1 l1 r1 s1 g1 where
    nl: "loss_nl [1, 4] [[1, 5], [7, 2]] [2011, 2012] True fresh_graph = Inr ((t1, l1, r1, s1), g1)"
    using loss_nl_selects_per_example [of "[1, 4]" "[2011, 2012]" "[[1, 5], [7, 2]]" True fresh_graph]
    by auto
  obtain t2 l2 r2 s2 g2 where
    mse: "loss_mse (Vec [1, 2, 3]) (Vec [1, 2, 4]) True fresh_graph = Inr ((t2, l2, r2, s2), g2)"
    using loss_mse_eq [of "Vec [1, 2, 4]" "Vec [1, 2, 3]" True fresh_graph] by auto
  obtain t3 l3 r3 s3 g3 where
    xent: "loss_xent [0] [[0]] True fresh_graph = Inr ((t3, l3, r3, s3), g3)"
    by (simp add: eval_defs)
  note a = summary_names [OF st u1 u2, THEN conjunct1, rule_format, OF conjI [OF u3 nl]]
  note b = summary_names [OF st u1 u2, THEN conjunct2, THEN conjunct1, rule_format,
      OF conjI [OF u3 mse]]
  note c = summary_names [OF st u1 u2, THEN conjunct2, THEN conjunct2, rule_format,
      OF conjI [OF u4 xent]]
  from nl mse xent a b c show ?thesis by blast
qed

text \<open>
  Claim C10: two calls of one of the three functions on the same tensors and the same
  graph that differ in the summary flag only return the same total, task and
  regularization loss, or raise the same error.
\<close>

theorem summary_flag_numeric_noninterference:
  "numeric_results (loss_nl labels preds years True g) =
     numeric_results (loss_nl labels preds years False g) \<and>
   numeric_results (loss_mse labels2 preds2 True g) =
     numeric_results (loss_mse labels2 preds2 False g) \<and>
   numeric_results (loss_xent labels3 logits True g) =
     numeric_results (loss_xent labels3 logits False g)"
proof -
  have mse: "numeric_results (loss_mse lb pr True g) = numeric_results (loss_mse lb pr False g)"
    for lb pr
  proof (cases "same_shape pr lb")
    case True
    from loss_mse_eq [OF True, of True g] loss_mse_eq [OF True, of False g]
    show ?thesis by (auto simp: numeric_results_def)
  next
    case False
    then show ?thesis by (simp add: loss_mse_err)
  qed
  have nl: "numeric_results (loss_nl labels preds years True g) =
     numeric_results (loss_nl labels preds years False g)"
  proof (cases "column 0 preds")
    case (Inl e)
    then show ?thesis by (simp add: loss_nl_def)
  next
    case dmsp: (Inr dmsp)
    show ?thesis
    proof (cases "column 1 preds")
      case (Inl e)
      with dmsp show ?thesis by (simp add: loss_nl_def)
    next
      case viirs: (Inr viirs)
      show ?thesis
      proof (cases "tf_where (map (\<lambda>y. y < 2012) years) dmsp viirs")
        case (Inl e)
        with dmsp viirs show ?thesis by (simp add: loss_nl_def)
      next
        case (Inr sel)
        with dmsp viirs mse show ?thesis by (simp add: loss_nl_as_loss_mse)
      qed
    qed
  qed
  have xent: "numeric_results (loss_xent labels3 logits True g) =
     numeric_results (loss_xent labels3 logits False g)"
  proof (cases "sparse_softmax_cross_entropy_with_logits labels3 logits")
    case (Inl e)
    then show ?thesis by (simp add: loss_xent_err)
  next
    case (Inr losses)
    from loss_xent_eq [OF Inr, of True g] loss_xent_eq [OF Inr, of False g]
    show ?thesis by (auto simp: numeric_results_def)
  qed
  from mse nl xent show ?thesis by blast
qed

end
